theory Spec2Isabelle
  imports Complex_Main
begin

section \<open>The Cursory cursor-trail controller (src/cursory.js)\<close>

text \<open>
  The source is one object literal, \<^verbatim>\<open>Cursory\<close>, whose methods mutate the object's
  own fields and three facilities of the hosting page: the children of
  \<^verbatim>\<open>document.body\<close>, the \<^verbatim>\<open>mousemove\<close> listeners of \<^verbatim>\<open>window\<close> and the
  frame scheduler (\<^verbatim>\<open>requestAnimationFrame\<close>). The model threads one record through
  every method: the fields of the object first, the part of the host the methods touch
  after them.

  Numbers. JavaScript numbers are IEEE-754 doubles. Coordinates, sizes, opacities and
  easing factors are modelled as exact reals (no rounding, no NaN, no infinities);
  \<^verbatim>\<open>trailLength\<close>, which the specification types as an integer, is an \<open>int\<close>, so a
  negative count is an input of the model.
\<close>

subsection \<open>Configuration\<close>

record config =
  trailColor :: string
  trailLength :: int
  trailSpeed :: real
  cursorSize :: real
  opacity :: real
  followSpeed :: real

text \<open>
  The argument of \<^verbatim>\<open>init\<close> and \<^verbatim>\<open>updateConfig\<close> is an object in which any of the
  recognised keys may be missing: \<open>None\<close> is a missing key.
\<close>

record options =
  opt_trailColor :: "string option"
  opt_trailLength :: "int option"
  opt_trailSpeed :: "real option"
  opt_cursorSize :: "real option"
  opt_opacity :: "real option"
  opt_followSpeed :: "real option"

definition noOptions :: options where
  "noOptions = \<lparr>opt_trailColor = None, opt_trailLength = None, opt_trailSpeed = None,
     opt_cursorSize = None, opt_opacity = None, opt_followSpeed = None\<rparr>"

definition defaultOptions :: config where
  "defaultOptions = \<lparr>trailColor = ''#00ffea'', trailLength = 10, trailSpeed = 1 / 2,
     cursorSize = 10, opacity = 7 / 10, followSpeed = 1 / 5\<rparr>"

definition override :: "'a \<Rightarrow> 'a option \<Rightarrow> 'a" where
  "override old new = (case new of None \<Rightarrow> old | Some v \<Rightarrow> v)"

text \<open>The object spread \<^verbatim>\<open>{ ...c, ...o }\<close>: a key of \<open>o\<close> wins over the same key of \<open>c\<close>.\<close>

definition spread :: "config \<Rightarrow> options \<Rightarrow> config" where
  "spread c o' = \<lparr>trailColor = override (trailColor c) (opt_trailColor o'),
     trailLength = override (trailLength c) (opt_trailLength o'),
     trailSpeed = override (trailSpeed c) (opt_trailSpeed o'),
     cursorSize = override (cursorSize c) (opt_cursorSize o'),
     opacity = override (opacity c) (opt_opacity o'),
     followSpeed = override (followSpeed c) (opt_followSpeed o')\<rparr>"

subsection \<open>Markers, elements, events\<close>

text \<open>
  A DOM element is an object of the page; the model keeps the elements in a store indexed
  by a handle. A length written as \<^verbatim>\<open>`${n}px`\<close> is kept as the number \<open>n\<close>, and
  \<^verbatim>\<open>translate(${x}px, ${y}px)\<close> as the pair \<open>(x, y)\<close>.
\<close>

record element =
  classList :: "string list"
  style_width :: real
  style_height :: real
  style_backgroundColor :: string
  style_opacity :: real
  style_position :: string
  style_pointerEvents :: string
  style_borderRadius :: string
  style_transform :: "real \<times> real"

text \<open>An entry \<^verbatim>\<open>{ element, x, y }\<close> of \<^verbatim>\<open>trails\<close>.\<close>

record trail =
  trail_element :: nat
  trail_x :: real
  trail_y :: real

record mouse_event =
  clientX :: real
  clientY :: real

datatype js_error = TypeError | NotFoundError

subsection \<open>The object and its host\<close>

record world =
  config :: config
  trails :: "trail list"
  maxTrails :: int
  animationFrame :: "nat option"
  isInitialized :: bool
  mouseX :: real
  mouseY :: real
  body :: "nat list"
  elements :: "nat \<Rightarrow> element"
  nextElement :: nat
  listeners :: "nat list"
  nextFunction :: nat
  frameRequests :: "nat list"
  nextRequest :: nat

text \<open>
  \<open>body\<close> lists the handles of the children of \<^verbatim>\<open>document.body\<close> in order;
  \<open>listeners\<close> the function objects registered on \<^verbatim>\<open>window\<close> for \<^verbatim>\<open>mousemove\<close>, by
  identity (the only function this program registers there is a bound \<^verbatim>\<open>trackMouse\<close>);
  \<open>frameRequests\<close> the pending requests of \<^verbatim>\<open>requestAnimationFrame\<close>, by their
  handles (every callback this program schedules is a bound \<^verbatim>\<open>animate\<close>). The three
  counters give fresh elements, function objects and request handles.

  In the source \<^verbatim>\<open>config\<close> starts as the empty object. No method reads a key of it
  before \<^verbatim>\<open>init\<close> has stored the merged object: \<^verbatim>\<open>updateConfig\<close> returns at its
  guard, and the loop of \<^verbatim>\<open>animate\<close> has no marker to visit. The record holds the
  defaults there; lemma \<open>init_ignores_config\<close> shows that \<open>init\<close> does not depend on it.
\<close>

definition blankElement :: element where
  "blankElement = \<lparr>classList = [], style_width = 0, style_height = 0,
     style_backgroundColor = [], style_opacity = 1, style_position = [],
     style_pointerEvents = [], style_borderRadius = [], style_transform = (0, 0)\<rparr>"

definition Cursory :: world where
  "Cursory = \<lparr>config = defaultOptions, trails = [], maxTrails = 10, animationFrame = None,
     isInitialized = False, mouseX = 0, mouseY = 0,
     body = [], elements = (\<lambda>_. blankElement), nextElement = 0,
     listeners = [], nextFunction = 0, frameRequests = [], nextRequest = 1\<rparr>"

subsection \<open>Host operations\<close>

text \<open>\<^verbatim>\<open>f.bind(this)\<close> makes a new function object at every call.\<close>

definition bind_this :: "world \<Rightarrow> nat \<times> world" where
  "bind_this w = (nextFunction w, w\<lparr>nextFunction := Suc (nextFunction w)\<rparr>)"

text \<open>A listener already registered (the same object) is not added again.\<close>

definition addEventListener :: "nat \<Rightarrow> world \<Rightarrow> world" where
  "addEventListener f w =
     (if f \<in> set (listeners w) then w else w\<lparr>listeners := listeners w @ [f]\<rparr>)"

text \<open>Only the registered object itself is removed; any other argument changes nothing.\<close>

definition removeEventListener :: "nat \<Rightarrow> world \<Rightarrow> world" where
  "removeEventListener f w = w\<lparr>listeners := removeAll f (listeners w)\<rparr>"

definition requestAnimationFrame :: "world \<Rightarrow> nat \<times> world" where
  "requestAnimationFrame w =
     (nextRequest w,
      w\<lparr>frameRequests := frameRequests w @ [nextRequest w], nextRequest := Suc (nextRequest w)\<rparr>)"

text \<open>\<^verbatim>\<open>cancelAnimationFrame(null)\<close> names no request.\<close>

definition cancelAnimationFrame :: "nat option \<Rightarrow> world \<Rightarrow> world" where
  "cancelAnimationFrame h w =
     (case h of None \<Rightarrow> w | Some r \<Rightarrow> w\<lparr>frameRequests := removeAll r (frameRequests w)\<rparr>)"

text \<open>\<^verbatim>\<open>document.body.removeChild(e)\<close> throws when \<open>e\<close> is not a child of the body.\<close>

definition removeChild :: "nat \<Rightarrow> world \<Rightarrow> js_error + world" where
  "removeChild e w =
     (if e \<in> set (body w) then Inr (w\<lparr>body := remove1 e (body w)\<rparr>) else Inl NotFoundError)"

subsection \<open>Creating markers\<close>

text \<open>
  The body of the creation loop, which the source writes out twice (in \<^verbatim>\<open>init\<close> and in
  \<^verbatim>\<open>updateConfig\<close>) with the same text: a new \<^verbatim>\<open>div\<close>, styled from the configuration,
  placed at the pointer, appended to the body and pushed on \<^verbatim>\<open>trails\<close>.
\<close>

definition createTrail :: "world \<Rightarrow> world" where
  "createTrail w =
     (let e = nextElement w;
          el = \<lparr>classList = [''cursory-trail''],
                style_width = cursorSize (config w),
                style_height = cursorSize (config w),
                style_backgroundColor = trailColor (config w),
                style_opacity = opacity (config w),
                style_position = ''fixed'',
                style_pointerEvents = ''none'',
                style_borderRadius = ''50%'',
                style_transform = (mouseX w, mouseY w)\<rparr>
      in w\<lparr>nextElement := Suc e,
           elements := (elements w)(e := el),
           body := body w @ [e],
           trails := trails w @ [\<lparr>trail_element = e, trail_x = mouseX w, trail_y = mouseY w\<rparr>]\<rparr>)"

text \<open>\<^verbatim>\<open>for (let i = 0; i < n; i++) { ... }\<close> with the body above.\<close>

primrec createTrails :: "nat \<Rightarrow> world \<Rightarrow> world" where
  "createTrails 0 w = w"
| "createTrails (Suc n) w = createTrails n (createTrail w)"

subsection \<open>trackMouse\<close>

definition trackMouse :: "mouse_event \<Rightarrow> world \<Rightarrow> world" where
  "trackMouse e w = w\<lparr>mouseX := clientX e, mouseY := clientY e\<rparr>"

subsection \<open>animate\<close>

text \<open>
  The body of the loop of \<^verbatim>\<open>animate\<close> at index \<open>i\<close>; the loop calls it for
  \<open>i < length (trails w)\<close> only.
\<close>

definition animateTrail :: "nat \<Rightarrow> world \<Rightarrow> world" where
  "animateTrail i w =
     (let trail = trails w ! i;
          dx = mouseX w - trail_x trail;
          dy = mouseY w - trail_y trail;
          x' = trail_x trail + dx * followSpeed (config w);
          y' = trail_y trail + dy * followSpeed (config w)
      in w\<lparr>trails := (trails w)[i := trail\<lparr>trail_x := x', trail_y := y'\<rparr>],
           elements := (elements w)(trail_element trail :=
             (elements w (trail_element trail))\<lparr>style_transform := (x', y')\<rparr>)\<rparr>)"

function animateLoop :: "nat \<Rightarrow> world \<Rightarrow> world" where
  "animateLoop i w = (if i < length (trails w) then animateLoop (Suc i) (animateTrail i w) else w)"
  by pat_completeness auto
termination
  by (relation "measure (\<lambda>(i, w). length (trails w) - i)")
     (auto simp: animateTrail_def Let_def)

declare animateLoop.simps [simp del]

definition animate :: "world \<Rightarrow> world" where
  "animate w =
     (let w1 = animateLoop 0 w;
          (f, w2) = bind_this w1;
          (r, w3) = requestAnimationFrame w2
      in w3\<lparr>animationFrame := Some r\<rparr>)"

subsection \<open>init\<close>

text \<open>
  The loop runs while \<^verbatim>\<open>i < this.maxTrails\<close>, so a negative \<^verbatim>\<open>trailLength\<close> creates no
  marker. \<^verbatim>\<open>init\<close> has no guard: called on an initialized controller it appends to
  the markers that are there and registers one more listener.
\<close>

definition init :: "options \<Rightarrow> world \<Rightarrow> world" where
  "init opts w =
     (let w1 = w\<lparr>config := spread defaultOptions opts\<rparr>;
          w2 = w1\<lparr>maxTrails := trailLength (config w1)\<rparr>;
          w3 = createTrails (nat (maxTrails w2)) w2;
          (f, w4) = bind_this w3;
          w5 = addEventListener f w4;
          w6 = animate w5
      in w6\<lparr>isInitialized := True\<rparr>)"

subsection \<open>updateConfig\<close>

text \<open>The body of \<^verbatim>\<open>this.trails.forEach(...)\<close> in \<^verbatim>\<open>updateConfig\<close>.\<close>

definition restyle :: "trail \<Rightarrow> world \<Rightarrow> world" where
  "restyle trail w =
     w\<lparr>elements := (elements w)(trail_element trail :=
        (elements w (trail_element trail))
          \<lparr>style_width := cursorSize (config w),
           style_height := cursorSize (config w),
           style_backgroundColor := trailColor (config w),
           style_opacity := opacity (config w)\<rparr>)\<rparr>"

text \<open>
  The removal loop: \<^verbatim>\<open>trails.pop()\<close> on an empty array is \<^verbatim>\<open>undefined\<close>, and
  reading \<^verbatim>\<open>.element\<close> of it throws a TypeError.
\<close>

fun removeTrails :: "nat \<Rightarrow> world \<Rightarrow> js_error + world" where
  "removeTrails 0 w = Inr w"
| "removeTrails (Suc n) w =
     (if trails w = [] then Inl TypeError
      else (case removeChild (trail_element (last (trails w))) (w\<lparr>trails := butlast (trails w)\<rparr>) of
              Inl err \<Rightarrow> Inl err
            | Inr w' \<Rightarrow> removeTrails n w'))"

text \<open>
  \<^verbatim>\<open>newConfig.trailLength && newConfig.trailLength !== this.maxTrails\<close>: a missing key
  reads as \<^verbatim>\<open>undefined\<close> and the number \<open>0\<close> is falsy, so the test passes only for a
  present, non-zero count different from \<^verbatim>\<open>maxTrails\<close>.
\<close>

definition updateConfig :: "options \<Rightarrow> world \<Rightarrow> js_error + world" where
  "updateConfig newConfig w =
     (if \<not> isInitialized w then Inr w
      else
        let w1 = w\<lparr>config := spread (config w) newConfig\<rparr>;
            w2 = fold restyle (trails w1) w1
        in case opt_trailLength newConfig of
             None \<Rightarrow> Inr w2
           | Some k \<Rightarrow>
               if k \<noteq> 0 \<and> k \<noteq> maxTrails w2 then
                 (if k > maxTrails w2 then
                    (let w3 = createTrails (nat (k - maxTrails w2)) w2
                     in Inr (w3\<lparr>maxTrails := trailLength (config w3)\<rparr>))
                  else
                    (case removeTrails (nat (maxTrails w2 - k)) w2 of
                       Inl err \<Rightarrow> Inl err
                     | Inr w3 \<Rightarrow> Inr (w3\<lparr>maxTrails := trailLength (config w3)\<rparr>)))
               else Inr w2)"

subsection \<open>destroy\<close>

text \<open>\<^verbatim>\<open>this.trails.forEach(trail => document.body.removeChild(trail.element))\<close>.\<close>

fun removeEach :: "trail list \<Rightarrow> world \<Rightarrow> js_error + world" where
  "removeEach [] w = Inr w"
| "removeEach (t # ts) w =
     (case removeChild (trail_element t) w of
        Inl err \<Rightarrow> Inl err
      | Inr w' \<Rightarrow> removeEach ts w')"

definition destroy :: "world \<Rightarrow> js_error + world" where
  "destroy w =
     (if \<not> isInitialized w then Inr w
      else
        (case removeEach (trails w) w of
           Inl err \<Rightarrow> Inl err
         | Inr w1 \<Rightarrow>
             (let w2 = w1\<lparr>trails := []\<rparr>;
                  (f, w3) = bind_this w2;
                  w4 = removeEventListener f w3;
                  w5 = cancelAnimationFrame (animationFrame w4) w4
              in Inr (w5\<lparr>animationFrame := None, isInitialized := False\<rparr>))))"

subsection \<open>Events of the host\<close>

text \<open>
  A pointer move calls every registered listener with the event; a frame calls every
  callback that was pending when the frame began.
\<close>

definition mousemove :: "mouse_event \<Rightarrow> world \<Rightarrow> world" where
  "mousemove e w = fold (\<lambda>f. trackMouse e) (listeners w) w"

definition frame :: "world \<Rightarrow> world" where
  "frame w = fold (\<lambda>r. animate) (frameRequests w) (w\<lparr>frameRequests := []\<rparr>)"

subsection \<open>Runs\<close>

text \<open>
  What can happen to the controller: a call of one of its five methods by the page, or
  one of the two host events that call back into it.
\<close>

datatype action =
    Init options
  | TrackMouse mouse_event
  | Animate
  | UpdateConfig options
  | Destroy
  | MouseMove mouse_event
  | Frame

fun step :: "action \<Rightarrow> world \<Rightarrow> js_error + world" where
  "step (Init opts) w = Inr (init opts w)"
| "step (TrackMouse e) w = Inr (trackMouse e w)"
| "step Animate w = Inr (animate w)"
| "step (UpdateConfig newConfig) w = updateConfig newConfig w"
| "step Destroy w = destroy w"
| "step (MouseMove e) w = Inr (mousemove e w)"
| "step Frame w = Inr (frame w)"

text \<open>A run stops at the first uncaught exception.\<close>

fun run :: "action list \<Rightarrow> world \<Rightarrow> js_error + world" where
  "run [] w = Inr w"
| "run (a # as) w = (case step a w of Inl err \<Rightarrow> Inl err | Inr w' \<Rightarrow> run as w')"

subsection \<open>Consistency of the object with its host\<close>

text \<open>
  What the methods rely on without checking it: the markers own distinct elements, each of
  them a child of the body, and the handles in use are older than the counters, so that
  a new element or function object is a new identity.
\<close>

definition well_formed :: "world \<Rightarrow> bool" where
  "well_formed w \<longleftrightarrow>
     distinct (body w) \<and>
     distinct (map trail_element (trails w)) \<and>
     set (map trail_element (trails w)) \<subseteq> set (body w) \<and>
     list_all (\<lambda>e. e < nextElement w) (body w) \<and>
     list_all (\<lambda>f. f < nextFunction w) (listeners w)"

text \<open>The count the object keeps agrees with the markers it holds.\<close>

definition markers_counted :: "world \<Rightarrow> bool" where
  "markers_counted w \<longleftrightarrow>
     (if isInitialized w then int (length (trails w)) = maxTrails w else trails w = [])"

text \<open>
  The runs that respect the conditions under which the specification describes the
  controller: \<open>init\<close> only on a controller that is not initialized, and every supplied
  \<open>trailLength\<close> a count.
\<close>

fun allowed :: "action \<Rightarrow> world \<Rightarrow> bool" where
  "allowed (Init opts) w =
     (\<not> isInitialized w \<and> 0 \<le> trailLength (spread defaultOptions opts))"
| "allowed (UpdateConfig newConfig) w =
     (case opt_trailLength newConfig of None \<Rightarrow> True | Some k \<Rightarrow> 0 \<le> k)"
| "allowed a w = True"

fun admissible :: "action list \<Rightarrow> world \<Rightarrow> bool" where
  "admissible [] w = True"
| "admissible (a # as) w =
     (allowed a w \<and> (case step a w of Inl err \<Rightarrow> True | Inr w' \<Rightarrow> admissible as w'))"

text \<open>
  An action with the \<open>trailSpeed\<close> key of its argument replaced (\<open>None\<close> takes the key
  out). Two actions that agree after the key is taken out differ in \<open>trailSpeed\<close> only.
\<close>

fun set_trailSpeed :: "real option \<Rightarrow> action \<Rightarrow> action" where
  "set_trailSpeed v (Init opts) = Init (opts\<lparr>opt_trailSpeed := v\<rparr>)"
| "set_trailSpeed v (UpdateConfig newConfig) = UpdateConfig (newConfig\<lparr>opt_trailSpeed := v\<rparr>)"
| "set_trailSpeed v a = a"

text \<open>A world with the stored \<open>trailSpeed\<close> blanked.\<close>

definition forget_trailSpeed :: "world \<Rightarrow> world" where
  "forget_trailSpeed w = w\<lparr>config := (config w)\<lparr>trailSpeed := 0\<rparr>\<rparr>"

subsection \<open>Notions of the specification\<close>

text \<open>
  The easing formula in the specification's words:
  new_pos = pos + (target - pos) * followSpeed.
\<close>

definition spec_ease :: "real \<Rightarrow> real \<Rightarrow> real \<Rightarrow> real" where
  "spec_ease speed target pos = pos + (target - pos) * speed"

definition spec_eased :: "world \<Rightarrow> trail \<Rightarrow> trail" where
  "spec_eased w t =
     t\<lparr>trail_x := spec_ease (followSpeed (config w)) (mouseX w) (trail_x t),
       trail_y := spec_ease (followSpeed (config w)) (mouseY w) (trail_y t)\<rparr>"



section \<open>Properties\<close>

subsection \<open>What each operation leaves alone\<close>

lemma createTrail_frame [simp]:
  "config (createTrail w) = config w"
  "maxTrails (createTrail w) = maxTrails w"
  "animationFrame (createTrail w) = animationFrame w"
  "isInitialized (createTrail w) = isInitialized w"
  "mouseX (createTrail w) = mouseX w"
  "mouseY (createTrail w) = mouseY w"
  "listeners (createTrail w) = listeners w"
  "nextFunction (createTrail w) = nextFunction w"
  "frameRequests (createTrail w) = frameRequests w"
  "nextRequest (createTrail w) = nextRequest w"
  by (simp_all add: createTrail_def Let_def)

lemma createTrail_effect [simp]:
  "trails (createTrail w) =
     trails w @ [\<lparr>trail_element = nextElement w, trail_x = mouseX w, trail_y = mouseY w\<rparr>]"
  "body (createTrail w) = body w @ [nextElement w]"
  "nextElement (createTrail w) = Suc (nextElement w)"
  by (simp_all add: createTrail_def Let_def)

lemma createTrails_frame [simp]:
  "config (createTrails n w) = config w"
  "maxTrails (createTrails n w) = maxTrails w"
  "animationFrame (createTrails n w) = animationFrame w"
  "isInitialized (createTrails n w) = isInitialized w"
  "mouseX (createTrails n w) = mouseX w"
  "mouseY (createTrails n w) = mouseY w"
  "listeners (createTrails n w) = listeners w"
  "nextFunction (createTrails n w) = nextFunction w"
  "frameRequests (createTrails n w) = frameRequests w"
  "nextRequest (createTrails n w) = nextRequest w"
  by (induction n arbitrary: w; simp)+

lemma nextElement_createTrails [simp]:
  "nextElement (createTrails n w) = nextElement w + n"
  by (induction n arbitrary: w) simp_all

lemma trails_createTrails:
  "trails (createTrails n w) =
     trails w @ map (\<lambda>e. \<lparr>trail_element = e, trail_x = mouseX w, trail_y = mouseY w\<rparr>)
       [nextElement w ..< nextElement w + n]"
  by (induction n arbitrary: w) (simp_all add: upt_conv_Cons del: upt_Suc)

lemma body_createTrails:
  "body (createTrails n w) = body w @ [nextElement w ..< nextElement w + n]"
  by (induction n arbitrary: w) (simp_all add: upt_conv_Cons del: upt_Suc)

lemma length_trails_createTrails [simp]:
  "length (trails (createTrails n w)) = length (trails w) + n"
  by (simp add: trails_createTrails)

lemma animateTrail_frame [simp]:
  "config (animateTrail i w) = config w"
  "maxTrails (animateTrail i w) = maxTrails w"
  "animationFrame (animateTrail i w) = animationFrame w"
  "isInitialized (animateTrail i w) = isInitialized w"
  "mouseX (animateTrail i w) = mouseX w"
  "mouseY (animateTrail i w) = mouseY w"
  "body (animateTrail i w) = body w"
  "nextElement (animateTrail i w) = nextElement w"
  "listeners (animateTrail i w) = listeners w"
  "nextFunction (animateTrail i w) = nextFunction w"
  "frameRequests (animateTrail i w) = frameRequests w"
  "nextRequest (animateTrail i w) = nextRequest w"
  "length (trails (animateTrail i w)) = length (trails w)"
  by (simp_all add: animateTrail_def Let_def)

lemma elements_of_animateTrail [simp]:
  "map trail_element (trails (animateTrail i w)) = map trail_element (trails w)"
  by (cases "i < length (trails w)")
     (simp_all add: animateTrail_def Let_def map_update list_update_same_conv list_update_beyond)

lemma animateLoop_frame [simp]:
  "config (animateLoop i w) = config w"
  "maxTrails (animateLoop i w) = maxTrails w"
  "animationFrame (animateLoop i w) = animationFrame w"
  "isInitialized (animateLoop i w) = isInitialized w"
  "mouseX (animateLoop i w) = mouseX w"
  "mouseY (animateLoop i w) = mouseY w"
  "body (animateLoop i w) = body w"
  "nextElement (animateLoop i w) = nextElement w"
  "listeners (animateLoop i w) = listeners w"
  "nextFunction (animateLoop i w) = nextFunction w"
  "frameRequests (animateLoop i w) = frameRequests w"
  "nextRequest (animateLoop i w) = nextRequest w"
  "length (trails (animateLoop i w)) = length (trails w)"
  "map trail_element (trails (animateLoop i w)) = map trail_element (trails w)"
  by (induction i w rule: animateLoop.induct; subst animateLoop.simps; simp)+

lemma eased_animateTrail [simp]: "spec_eased (animateTrail i w) = spec_eased w"
  by (simp add: spec_eased_def fun_eq_iff)

lemma trails_animateTrail:
  "i < length (trails w) \<Longrightarrow>
   trails (animateTrail i w) = (trails w)[i := spec_eased w (trails w ! i)]"
  by (simp add: animateTrail_def Let_def spec_eased_def spec_ease_def)

lemma trails_animateLoop:
  "i \<le> length (trails w) \<Longrightarrow>
   trails (animateLoop i w) = take i (trails w) @ map (spec_eased w) (drop i (trails w))"
proof (induction i w rule: animateLoop.induct)
  case (1 i w)
  show ?case
  proof (cases "i < length (trails w)")
    case True
    have "trails (animateLoop i w) = trails (animateLoop (Suc i) (animateTrail i w))"
      using True by (subst animateLoop.simps) simp
    also have "\<dots> = take (Suc i) (trails (animateTrail i w)) @
        map (spec_eased w) (drop (Suc i) (trails (animateTrail i w)))"
      using True "1.IH" by simp
    also have "\<dots> = take i (trails w) @ map (spec_eased w) (drop i (trails w))"
      using True
      by (simp add: trails_animateTrail take_Suc_conv_app_nth Cons_nth_drop_Suc [symmetric])
    finally show ?thesis .
  next
    case False
    with "1.prems" show ?thesis by (subst animateLoop.simps) simp
  qed
qed

lemma animate_frame [simp]:
  "config (animate w) = config w"
  "maxTrails (animate w) = maxTrails w"
  "isInitialized (animate w) = isInitialized w"
  "mouseX (animate w) = mouseX w"
  "mouseY (animate w) = mouseY w"
  "body (animate w) = body w"
  "nextElement (animate w) = nextElement w"
  "listeners (animate w) = listeners w"
  "length (trails (animate w)) = length (trails w)"
  "map trail_element (trails (animate w)) = map trail_element (trails w)"
  by (simp_all add: animate_def bind_this_def requestAnimationFrame_def Let_def)

lemma animate_schedules [simp]:
  "animationFrame (animate w) = Some (nextRequest w)"
  "frameRequests (animate w) = frameRequests w @ [nextRequest w]"
  "nextRequest (animate w) = Suc (nextRequest w)"
  "nextFunction (animate w) = Suc (nextFunction w)"
  by (simp_all add: animate_def bind_this_def requestAnimationFrame_def Let_def)

lemma trails_animate: "trails (animate w) = map (spec_eased w) (trails w)"
  by (simp add: animate_def bind_this_def requestAnimationFrame_def Let_def trails_animateLoop)

lemma init_frame [simp]:
  "config (init opts w) = spread defaultOptions opts"
  "maxTrails (init opts w) = trailLength (spread defaultOptions opts)"
  "isInitialized (init opts w)"
  "mouseX (init opts w) = mouseX w"
  "mouseY (init opts w) = mouseY w"
  by (simp_all add: init_def bind_this_def addEventListener_def Let_def)

lemma trails_init:
  "trails (init opts w) =
     map (spec_eased (w\<lparr>config := spread defaultOptions opts\<rparr>)) (trails w) @
     map (\<lambda>e. \<lparr>trail_element = e, trail_x = mouseX w, trail_y = mouseY w\<rparr>)
       [nextElement w ..< nextElement w + nat (trailLength (spread defaultOptions opts))]"
  by (simp add: init_def bind_this_def addEventListener_def Let_def trails_animate
      trails_createTrails spec_eased_def spec_ease_def)

text \<open>
  The configuration the object literal starts with is never read: \<open>init\<close> replaces it
  before it reads any key.
\<close>

lemma init_ignores_config: "init opts (w\<lparr>config := c\<rparr>) = init opts w"
  by (simp add: init_def)

subsection \<open>trackMouse\<close>

text \<open>
  Claim C9. For every pointer-move event, \<open>trackMouse\<close> stores the event's coordinates in
  \<open>mouseX\<close> and \<open>mouseY\<close> and changes nothing else: putting the old pointer back gives the
  world before the call, so the markers, their elements, the configuration, \<open>maxTrails\<close>,
  the initialized flag and the host are as they were. The method returns nothing: its
  model yields the world alone.
\<close>

theorem trackMouse_overwrites_pointer_only:
  "mouseX (trackMouse e w) = clientX e \<and>
   mouseY (trackMouse e w) = clientY e \<and>
   (trackMouse e w)\<lparr>mouseX := mouseX w, mouseY := mouseY w\<rparr> = w \<and>
   trails (trackMouse e w) = trails w \<and>
   elements (trackMouse e w) = elements w \<and>
   config (trackMouse e w) = config w \<and>
   maxTrails (trackMouse e w) = maxTrails w \<and>
   isInitialized (trackMouse e w) = isInitialized w"
  by (simp add: trackMouse_def)

subsection \<open>updateConfig before init\<close>

text \<open>
  Claim C8. For every argument, \<open>updateConfig\<close> on a controller that is not initialized
  returns normally and leaves the whole world as it was: configuration, markers,
  \<open>maxTrails\<close>, pointer, flag, and the host.
\<close>

theorem updateConfig_uninitialized_noop:
  "\<not> isInitialized w \<Longrightarrow> updateConfig newConfig w = Inr w"
  by (simp add: updateConfig_def)

text \<open>An instance: the object as created, with a new count and a new colour.\<close>

theorem updateConfig_uninitialized_noop_witness:
  "\<not> isInitialized Cursory \<and>
   updateConfig (noOptions\<lparr>opt_trailLength := Some 4, opt_trailColor := Some ''red''\<rparr>) Cursory
     = Inr Cursory"
proof -
  have h: "\<not> isInitialized Cursory"
    by (simp add: Cursory_def)
  show ?thesis
    using h updateConfig_uninitialized_noop [OF h] by simp
qed

subsection \<open>The per-frame update\<close>


subsection \<open>init\<close>



subsection \<open>Consistency is kept\<close>

lemma well_formed_transfer:
  assumes "well_formed w"
    and "body w' = body w"
    and "map trail_element (trails w') = map trail_element (trails w)"
    and "nextElement w' = nextElement w"
    and "listeners w' = listeners w"
    and "nextFunction w \<le> nextFunction w'"
  shows "well_formed w'"
  using assms by (auto simp: well_formed_def list_all_iff)

lemma well_formed_createTrail: "well_formed w \<Longrightarrow> well_formed (createTrail w)"
  by (fastforce simp: well_formed_def list_all_iff)

lemma well_formed_createTrails: "well_formed w \<Longrightarrow> well_formed (createTrails n w)"
  by (induction n arbitrary: w) (simp_all add: well_formed_createTrail)

lemma well_formed_animate: "well_formed w \<Longrightarrow> well_formed (animate w)"
  by (erule well_formed_transfer) simp_all

lemma trackMouse_frame [simp]:
  "config (trackMouse e w) = config w"
  "trails (trackMouse e w) = trails w"
  "maxTrails (trackMouse e w) = maxTrails w"
  "animationFrame (trackMouse e w) = animationFrame w"
  "isInitialized (trackMouse e w) = isInitialized w"
  "body (trackMouse e w) = body w"
  "elements (trackMouse e w) = elements w"
  "nextElement (trackMouse e w) = nextElement w"
  "listeners (trackMouse e w) = listeners w"
  "nextFunction (trackMouse e w) = nextFunction w"
  "frameRequests (trackMouse e w) = frameRequests w"
  "nextRequest (trackMouse e w) = nextRequest w"
  by (simp_all add: trackMouse_def)

lemma well_formed_trackMouse: "well_formed w \<Longrightarrow> well_formed (trackMouse e w)"
  by (erule well_formed_transfer) simp_all

lemma restyle_frame [simp]:
  "config (restyle t w) = config w"
  "trails (restyle t w) = trails w"
  "maxTrails (restyle t w) = maxTrails w"
  "animationFrame (restyle t w) = animationFrame w"
  "isInitialized (restyle t w) = isInitialized w"
  "mouseX (restyle t w) = mouseX w"
  "mouseY (restyle t w) = mouseY w"
  "body (restyle t w) = body w"
  "nextElement (restyle t w) = nextElement w"
  "listeners (restyle t w) = listeners w"
  "nextFunction (restyle t w) = nextFunction w"
  "frameRequests (restyle t w) = frameRequests w"
  "nextRequest (restyle t w) = nextRequest w"
  by (simp_all add: restyle_def)

lemma fold_restyle_frame [simp]:
  "config (fold restyle ts w) = config w"
  "trails (fold restyle ts w) = trails w"
  "maxTrails (fold restyle ts w) = maxTrails w"
  "animationFrame (fold restyle ts w) = animationFrame w"
  "isInitialized (fold restyle ts w) = isInitialized w"
  "mouseX (fold restyle ts w) = mouseX w"
  "mouseY (fold restyle ts w) = mouseY w"
  "body (fold restyle ts w) = body w"
  "nextElement (fold restyle ts w) = nextElement w"
  "listeners (fold restyle ts w) = listeners w"
  "nextFunction (fold restyle ts w) = nextFunction w"
  "frameRequests (fold restyle ts w) = frameRequests w"
  "nextRequest (fold restyle ts w) = nextRequest w"
  by (induction ts arbitrary: w; simp)+

lemma removeChild_Inr:
  "removeChild e w = Inr w' \<longleftrightarrow> e \<in> set (body w) \<and> w' = w\<lparr>body := remove1 e (body w)\<rparr>"
  by (auto simp: removeChild_def)

lemma removeTrails_result:
  "removeTrails n w = Inr w' \<Longrightarrow>
     n \<le> length (trails w) \<and>
     trails w' = take (length (trails w) - n) (trails w) \<and>
     w' = w\<lparr>trails := trails w', body := body w'\<rparr>"
proof (induction n arbitrary: w)
  case 0
  then show ?case by simp
next
  case (Suc n)
  from Suc.prems have ne: "trails w \<noteq> []"
    by (auto split: if_splits)
  let ?w1 = "w\<lparr>trails := butlast (trails w)\<rparr>"
  from Suc.prems ne obtain w2 where
    rc: "removeChild (trail_element (last (trails w))) ?w1 = Inr w2" and
    rest: "removeTrails n w2 = Inr w'"
    by (auto split: sum.splits)
  from rc have w2: "w2 = ?w1\<lparr>body := remove1 (trail_element (last (trails w))) (body w)\<rparr>"
    by (simp add: removeChild_Inr)
  from Suc.IH [OF rest] have
    n: "n \<le> length (trails w2)" and
    t: "trails w' = take (length (trails w2) - n) (trails w2)" and
    f: "w' = w2\<lparr>trails := trails w', body := body w'\<rparr>"
    by blast+
  have len: "length (trails w2) = length (trails w) - 1"
    by (simp add: w2)
  have "Suc n \<le> length (trails w)"
    using n len ne by (cases "trails w") simp_all
  moreover have "trails w' = take (length (trails w) - Suc n) (trails w)"
    using t len by (simp add: w2 butlast_conv_take)
  moreover have "w' = w\<lparr>trails := trails w', body := body w'\<rparr>"
    by (subst f) (simp add: w2)
  ultimately show ?case by simp
qed

lemma removeTrails_returns:
  "well_formed w \<Longrightarrow> n \<le> length (trails w) \<Longrightarrow>
   \<exists>w'. removeTrails n w = Inr w' \<and> well_formed w'"
proof (induction n arbitrary: w)
  case 0
  then show ?case by simp
next
  case (Suc n)
  then have ne: "trails w \<noteq> []" by auto
  let ?e = "trail_element (last (trails w))"
  let ?w2 = "w\<lparr>trails := butlast (trails w), body := remove1 ?e (body w)\<rparr>"
  have split: "trails w = butlast (trails w) @ [last (trails w)]"
    using ne by simp
  have d: "distinct (map trail_element (butlast (trails w)) @ [?e])"
    and sub: "set (map trail_element (butlast (trails w)) @ [?e]) \<subseteq> set (body w)"
    using Suc.prems(1) split unfolding well_formed_def
    by (metis map_append list.simps(8,9))+
  have mem: "?e \<in> set (body w)"
    using sub by simp
  have notin: "?e \<notin> trail_element ` set (butlast (trails w))"
    and d1: "distinct (map trail_element (butlast (trails w)))"
    and sub1: "trail_element ` set (butlast (trails w)) \<subseteq> set (body w)"
    using d sub by simp_all
  have db: "distinct (body w)"
    and bound: "list_all (\<lambda>e. e < nextElement w) (body w)"
    and fbound: "list_all (\<lambda>f. f < nextFunction w) (listeners w)"
    using Suc.prems(1) by (simp_all add: well_formed_def)
  have "trail_element ` set (butlast (trails w)) \<subseteq> set (body w) - {?e}"
    using notin sub1 by blast
  then have "trail_element ` set (butlast (trails w)) \<subseteq> set (remove1 ?e (body w))"
    using db by (simp add: set_remove1_eq)
  moreover have "list_all (\<lambda>e. e < nextElement w) (remove1 ?e (body w))"
    using bound by (auto simp: list_all_iff dest: notin_set_remove1)
  ultimately have wf2: "well_formed ?w2"
    using d1 db fbound by (simp add: well_formed_def)
  have "n \<le> length (trails ?w2)"
    using Suc.prems(2) by simp
  from Suc.IH [OF wf2 this] obtain w' where "removeTrails n ?w2 = Inr w'" "well_formed w'"
    by blast
  then show ?case
    using ne mem by (simp add: removeChild_def)
qed


lemma removeEach_result:
  "removeEach ts w = Inr w' \<Longrightarrow>
     w' = w\<lparr>body := body w'\<rparr> \<and> set (body w') \<subseteq> set (body w) \<and>
     (distinct (body w) \<longrightarrow> distinct (body w'))"
proof (induction ts arbitrary: w)
  case Nil
  then show ?case by simp
next
  case (Cons t ts)
  from Cons.prems obtain w1 where
    rc: "removeChild (trail_element t) w = Inr w1" and rest: "removeEach ts w1 = Inr w'"
    by (auto split: sum.splits)
  from rc have w1: "w1 = w\<lparr>body := remove1 (trail_element t) (body w)\<rparr>"
    by (simp add: removeChild_Inr)
  from Cons.IH [OF rest] have
    f: "w' = w1\<lparr>body := body w'\<rparr>" and
    sub: "set (body w') \<subseteq> set (body w1)" and
    d: "distinct (body w1) \<longrightarrow> distinct (body w')"
    by blast+
  have "w' = w\<lparr>body := body w'\<rparr>"
    by (subst f) (simp add: w1)
  moreover have "set (body w') \<subseteq> set (body w)"
    using sub set_remove1_subset by (fastforce simp: w1)
  moreover have "distinct (body w) \<longrightarrow> distinct (body w')"
    using d by (simp add: w1)
  ultimately show ?case by simp
qed

lemma removeEach_returns:
  "distinct (map trail_element ts) \<Longrightarrow> set (map trail_element ts) \<subseteq> set (body w) \<Longrightarrow>
   \<exists>w'. removeEach ts w = Inr w'"
proof (induction ts arbitrary: w)
  case Nil
  then show ?case by simp
next
  case (Cons t ts)
  let ?w1 = "w\<lparr>body := remove1 (trail_element t) (body w)\<rparr>"
  have "x \<in> set (body ?w1)" if "x \<in> set (map trail_element ts)" for x
  proof -
    from Cons.prems have a: "trail_element t \<notin> trail_element ` set ts"
      and b: "trail_element ` set ts \<subseteq> set (body w)"
      by simp_all
    from that have c: "x \<in> trail_element ` set ts"
      by simp
    from a b c have "x \<noteq> trail_element t" "x \<in> set (body w)"
      by blast+
    then show ?thesis
      by (simp add: in_set_remove1)
  qed
  then have "set (map trail_element ts) \<subseteq> set (body ?w1)"
    by blast
  moreover have "distinct (map trail_element ts)"
    using Cons.prems by simp
  ultimately obtain w' where "removeEach ts ?w1 = Inr w'"
    using Cons.IH by blast
  then show ?case
    using Cons.prems by (simp add: removeChild_def)
qed

lemma destroy_initialized:
  "isInitialized w \<Longrightarrow>
   destroy w =
     (case removeEach (trails w) w of
        Inl err \<Rightarrow> Inl err
      | Inr w1 \<Rightarrow>
          Inr (w1\<lparr>trails := [], nextFunction := Suc (nextFunction w1),
                 listeners := removeAll (nextFunction w1) (listeners w1),
                 frameRequests :=
                   (case animationFrame w1 of None \<Rightarrow> frameRequests w1
                    | Some r \<Rightarrow> removeAll r (frameRequests w1)),
                 animationFrame := None, isInitialized := False\<rparr>))"
  by (simp add: destroy_def bind_this_def removeEventListener_def cancelAnimationFrame_def
      Let_def split: sum.splits option.splits)

lemma destroy_uninitializes:
  assumes "destroy w = Inr w'"
  shows "\<not> isInitialized w'"
proof (cases "isInitialized w")
  case True
  from assms show ?thesis
    unfolding destroy_initialized [OF True] by (auto split: sum.splits)
next
  case False
  with assms show ?thesis
    by (simp add: destroy_def)
qed

lemma destroy_clears: "destroy w = Inr w' \<Longrightarrow> isInitialized w \<Longrightarrow> trails w' = []"
  by (auto simp: destroy_initialized split: sum.splits)

lemma destroy_returns:
  assumes "well_formed w"
  shows "\<exists>w'. destroy w = Inr w' \<and> well_formed w'"
proof (cases "isInitialized w")
  case False
  with assms show ?thesis by (simp add: destroy_def)
next
  case True
  from assms obtain w1 where r: "removeEach (trails w) w = Inr w1"
    using removeEach_returns [of "trails w" w] by (auto simp: well_formed_def)
  from removeEach_result [OF r] have
    f: "w1 = w\<lparr>body := body w1\<rparr>" and sub: "set (body w1) \<subseteq> set (body w)"
    and d: "distinct (body w1)"
    using assms by (auto simp: well_formed_def)
  have l: "listeners w1 = listeners w" "nextFunction w1 = nextFunction w"
    "nextElement w1 = nextElement w"
    by (subst f, simp)+
  show ?thesis
    using True r assms sub d l
    by (auto simp: destroy_initialized well_formed_def list_all_iff)
qed

lemma listeners_init:
  "listeners (init opts w) =
     (if nextFunction w \<in> set (listeners w) then listeners w else listeners w @ [nextFunction w])"
  by (simp add: init_def bind_this_def addEventListener_def Let_def)

lemma init_host [simp]:
  "nextFunction (init opts w) = Suc (Suc (nextFunction w))"
  "body (init opts w) =
     body w @ [nextElement w ..< nextElement w + nat (trailLength (spread defaultOptions opts))]"
  "nextElement (init opts w) = nextElement w + nat (trailLength (spread defaultOptions opts))"
  by (simp_all add: init_def bind_this_def addEventListener_def Let_def body_createTrails)

lemma well_formed_init: "well_formed w \<Longrightarrow> well_formed (init opts w)"
proof -
  assume wf: "well_formed w"
  let ?w2 = "w\<lparr>config := spread defaultOptions opts,
               maxTrails := trailLength (spread defaultOptions opts)\<rparr>"
  have "well_formed ?w2"
    using wf by (rule well_formed_transfer) simp_all
  then have "well_formed (createTrails (nat (maxTrails ?w2)) ?w2)" (is "well_formed ?w3")
    by (rule well_formed_createTrails)
  moreover have "body (init opts w) = body ?w3"
    and "map trail_element (trails (init opts w)) = map trail_element (trails ?w3)"
    and "nextElement (init opts w) = nextElement ?w3"
    by (simp_all add: init_def bind_this_def addEventListener_def Let_def)
  moreover have "set (listeners (init opts w)) \<subseteq> insert (nextFunction w) (set (listeners ?w3))"
    by (auto simp: listeners_init)
  moreover have "nextFunction ?w3 = nextFunction w"
    by simp
  ultimately show ?thesis
    by (auto simp: well_formed_def list_all_iff less_Suc_eq)
qed

lemma updateConfig_initialized:
  "isInitialized w \<Longrightarrow>
   updateConfig newConfig w =
     (let w2 = fold restyle (trails w) (w\<lparr>config := spread (config w) newConfig\<rparr>)
      in case opt_trailLength newConfig of
           None \<Rightarrow> Inr w2
         | Some k \<Rightarrow>
             if k = 0 \<or> k = maxTrails w then Inr w2
             else if maxTrails w < k then
               Inr ((createTrails (nat (k - maxTrails w)) w2)\<lparr>maxTrails := k\<rparr>)
             else
               (case removeTrails (nat (maxTrails w - k)) w2 of
                  Inl err \<Rightarrow> Inl err
                | Inr w3 \<Rightarrow> Inr (w3\<lparr>maxTrails := trailLength (config w3)\<rparr>)))"
  by (auto simp: updateConfig_def Let_def spread_def override_def split: option.splits)

lemma well_formed_restyled:
  "well_formed w \<Longrightarrow> well_formed (fold restyle (trails w) (w\<lparr>config := c\<rparr>))"
  by (erule well_formed_transfer) simp_all

lemma removeTrails_config:
  "removeTrails n w = Inr w' \<Longrightarrow> config w' = config w \<and> isInitialized w' = isInitialized w"
proof -
  assume "removeTrails n w = Inr w'"
  from removeTrails_result [OF this] have f: "w' = w\<lparr>trails := trails w', body := body w'\<rparr>"
    by blast
  have "config w' = config w" "isInitialized w' = isInitialized w"
    by (subst f, simp)+
  then show ?thesis
    by simp
qed


lemma updateConfig_trailLength:
  assumes init: "isInitialized w"
    and wf: "well_formed w"
    and count: "int (length (trails w)) = maxTrails w"
    and key: "opt_trailLength newConfig = Some k"
    and pos: "0 < k"
  shows "\<exists>w'. updateConfig newConfig w = Inr w' \<and> int (length (trails w')) = k \<and>
           maxTrails w' = k \<and> well_formed w' \<and> isInitialized w'"
proof -
  let ?w2 = "fold restyle (trails w) (w\<lparr>config := spread (config w) newConfig\<rparr>)"
  have wf2: "well_formed ?w2"
    using wf by (rule well_formed_restyled)
  have tl: "trailLength (config ?w2) = k"
    using key by (simp add: spread_def override_def)
  consider (same) "k = maxTrails w" | (more) "maxTrails w < k" | (less) "k < maxTrails w"
    by linarith
  then show ?thesis
  proof cases
    case same
    then show ?thesis
      using init key pos count wf2 by (simp add: updateConfig_initialized)
  next
    case more
    let ?w3 = "createTrails (nat (k - maxTrails w)) ?w2"
    have "well_formed (?w3\<lparr>maxTrails := k\<rparr>)"
      using well_formed_createTrails [OF wf2] by (rule well_formed_transfer) simp_all
    moreover have "int (length (trails ?w3)) = k"
      using more count by simp
    ultimately show ?thesis
      using init key pos more by (simp add: updateConfig_initialized)
  next
    case less
    let ?n = "nat (maxTrails w - k)"
    have n: "?n \<le> length (trails ?w2)"
      using less pos count by simp
    from removeTrails_returns [OF wf2 n] obtain w3 where
      r: "removeTrails ?n ?w2 = Inr w3" and wf3: "well_formed w3"
      by blast
    from removeTrails_result [OF r] have t: "trails w3 = take (length (trails ?w2) - ?n) (trails ?w2)"
      by blast
    have len: "int (length (trails w3)) = k"
      using less pos count by (simp add: t)
    from removeTrails_config [OF r] have c: "trailLength (config w3) = k" "isInitialized w3"
      using tl init by simp_all
    have "well_formed (w3\<lparr>maxTrails := k\<rparr>)"
      using wf3 by (rule well_formed_transfer) simp_all
    then show ?thesis
      using init key pos less r len c by (simp add: updateConfig_initialized)
  qed
qed

lemma updateConfig_keeps_invariant:
  assumes wf: "well_formed w"
    and count: "markers_counted w"
    and ok: "allowed (UpdateConfig newConfig) w"
  shows "\<exists>w'. updateConfig newConfig w = Inr w' \<and> well_formed w' \<and> markers_counted w'"
proof (cases "isInitialized w")
  case False
  with wf count show ?thesis
    by (simp add: updateConfig_def)
next
  case True
  let ?w2 = "fold restyle (trails w) (w\<lparr>config := spread (config w) newConfig\<rparr>)"
  have wf2: "well_formed ?w2"
    using wf by (rule well_formed_restyled)
  have c2: "markers_counted ?w2"
    using count True by (simp add: markers_counted_def)
  show ?thesis
  proof (cases "opt_trailLength newConfig")
    case None
    with True wf2 c2 show ?thesis
      by (simp add: updateConfig_initialized)
  next
    case (Some k)
    show ?thesis
    proof (cases "k = 0")
      case True
      with \<open>isInitialized w\<close> Some wf2 c2 show ?thesis
        by (simp add: updateConfig_initialized)
    next
      case False
      with ok Some have "0 < k"
        by simp
      moreover have "int (length (trails w)) = maxTrails w"
        using count True by (simp add: markers_counted_def)
      ultimately obtain w' where "updateConfig newConfig w = Inr w'"
        "int (length (trails w')) = k" "maxTrails w' = k" "well_formed w'" "isInitialized w'"
        using updateConfig_trailLength [OF True wf _ Some] by blast
      then show ?thesis
        by (auto simp: markers_counted_def)
    qed
  qed
qed

lemma fold_invariant:
  assumes "\<And>x w. P w \<Longrightarrow> P (f x w)" and "P w"
  shows "P (fold f xs w)"
  using assms(2) by (induction xs arbitrary: w) (simp_all add: assms(1))

lemma invariant_animate:
  "well_formed w \<and> markers_counted w \<Longrightarrow> well_formed (animate w) \<and> markers_counted (animate w)"
  by (simp add: well_formed_animate markers_counted_def trails_animate)

lemma invariant_trackMouse:
  "well_formed w \<and> markers_counted w \<Longrightarrow>
   well_formed (trackMouse e w) \<and> markers_counted (trackMouse e w)"
  by (simp add: well_formed_trackMouse markers_counted_def)

lemma invariant_init:
  assumes "well_formed w" "markers_counted w" "allowed (Init opts) w"
  shows "well_formed (init opts w) \<and> markers_counted (init opts w)"
  using assms by (simp add: well_formed_init markers_counted_def trails_init)

lemma invariant_destroy:
  assumes "well_formed w" "markers_counted w"
  shows "\<exists>w'. destroy w = Inr w' \<and> well_formed w' \<and> markers_counted w'"
proof -
  from destroy_returns [OF assms(1)] obtain w' where d: "destroy w = Inr w'" "well_formed w'"
    by blast
  have "markers_counted w'"
  proof (cases "isInitialized w")
    case True
    with d destroy_clears destroy_uninitializes show ?thesis
      by (simp add: markers_counted_def)
  next
    case False
    with d assms(2) show ?thesis
      by (simp add: destroy_def)
  qed
  with d show ?thesis
    by blast
qed

lemma invariant_step:
  assumes "well_formed w" "markers_counted w" "allowed a w"
  shows "\<exists>w'. step a w = Inr w' \<and> well_formed w' \<and> markers_counted w'"
proof (cases a)
  case (Init opts)
  with assms invariant_init show ?thesis by simp
next
  case (TrackMouse e)
  with assms invariant_trackMouse show ?thesis by simp
next
  case Animate
  with assms invariant_animate show ?thesis by simp
next
  case (UpdateConfig newConfig)
  with assms updateConfig_keeps_invariant show ?thesis by simp
next
  case Destroy
  with assms invariant_destroy show ?thesis by simp
next
  case (MouseMove e)
  have "well_formed (mousemove e w) \<and> markers_counted (mousemove e w)"
    unfolding mousemove_def
    by (rule fold_invariant [where P = "\<lambda>w. well_formed w \<and> markers_counted w"])
       (use assms invariant_trackMouse in simp_all)
  with MouseMove show ?thesis by simp
next
  case Frame
  have "well_formed (w\<lparr>frameRequests := []\<rparr>)"
    using assms(1) by (rule well_formed_transfer) simp_all
  moreover have "markers_counted (w\<lparr>frameRequests := []\<rparr>)"
    using assms(2) by (simp add: markers_counted_def)
  ultimately have "well_formed (frame w) \<and> markers_counted (frame w)"
    unfolding frame_def
    by (intro fold_invariant [where P = "\<lambda>w. well_formed w \<and> markers_counted w"])
       (use invariant_animate in simp_all)
  with Frame show ?thesis by simp
qed

lemma invariant_run:
  assumes "well_formed w" "markers_counted w" "admissible as w"
  shows "\<exists>w'. run as w = Inr w' \<and> well_formed w' \<and> markers_counted w'"
  using assms
proof (induction as arbitrary: w)
  case Nil
  then show ?case by simp
next
  case (Cons a as)
  from Cons.prems have "allowed a w"
    by simp
  from invariant_step [OF Cons.prems(1,2) this] obtain w1 where
    s: "step a w = Inr w1" and i: "well_formed w1" "markers_counted w1"
    by blast
  from Cons.prems(3) s have "admissible as w1"
    by simp
  from Cons.IH [OF i this] s show ?case
    by simp
qed

lemma invariant_Cursory:
  "well_formed (Cursory\<lparr>config := c\<rparr>)" "markers_counted (Cursory\<lparr>config := c\<rparr>)"
  by (simp_all add: well_formed_def markers_counted_def Cursory_def)

subsection \<open>The marker count\<close>

text \<open>
  Claim C10. Start from the object as the script creates it (whatever its first
  configuration object holds) and let the page call
  \<open>init\<close>, \<open>trackMouse\<close>, \<open>animate\<close>, \<open>updateConfig\<close> and \<open>destroy\<close>, and the host deliver
  pointer moves and frames, in any order, provided \<open>init\<close> is called only on a controller
  that is not initialized and every supplied \<open>trailLength\<close> is not negative. Then no call
  throws, and in the state reached, if the controller is initialized, the number of
  markers is \<open>maxTrails\<close>.
\<close>

theorem initialized_count_invariant:
  assumes "admissible as (Cursory\<lparr>config := c\<rparr>)"
  shows "\<exists>w. run as (Cursory\<lparr>config := c\<rparr>) = Inr w \<and>
           (isInitialized w \<longrightarrow> int (length (trails w)) = maxTrails w)"
proof -
  from invariant_run [OF invariant_Cursory assms] obtain w where
    "run as (Cursory\<lparr>config := c\<rparr>) = Inr w" "markers_counted w"
    by blast
  then show ?thesis
    by (auto simp: markers_counted_def)
qed

text \<open>
  An instance: a run that grows the trail, shrinks it, passes a zero count, destroys the
  controller and initializes it again.
\<close>

theorem initialized_count_invariant_witness:
  "admissible
     [Init (noOptions\<lparr>opt_trailLength := Some 3\<rparr>),
      MouseMove \<lparr>clientX = 40, clientY = 30\<rparr>, Frame,
      UpdateConfig (noOptions\<lparr>opt_trailLength := Some 5\<rparr>), Animate,
      UpdateConfig (noOptions\<lparr>opt_trailLength := Some 0\<rparr>),
      UpdateConfig (noOptions\<lparr>opt_trailLength := Some 2\<rparr>),
      Destroy, TrackMouse \<lparr>clientX = 1, clientY = 2\<rparr>, Init noOptions] Cursory \<and>
   (case run
     [Init (noOptions\<lparr>opt_trailLength := Some 3\<rparr>),
      MouseMove \<lparr>clientX = 40, clientY = 30\<rparr>, Frame,
      UpdateConfig (noOptions\<lparr>opt_trailLength := Some 5\<rparr>), Animate,
      UpdateConfig (noOptions\<lparr>opt_trailLength := Some 0\<rparr>),
      UpdateConfig (noOptions\<lparr>opt_trailLength := Some 2\<rparr>),
      Destroy, TrackMouse \<lparr>clientX = 1, clientY = 2\<rparr>, Init noOptions] Cursory of
      Inl err \<Rightarrow> False
    | Inr w \<Rightarrow> isInitialized w \<and> int (length (trails w)) = maxTrails w)"
proof -
  let ?as = "[Init (noOptions\<lparr>opt_trailLength := Some 3\<rparr>),
      MouseMove \<lparr>clientX = 40, clientY = 30\<rparr>, Frame,
      UpdateConfig (noOptions\<lparr>opt_trailLength := Some 5\<rparr>), Animate,
      UpdateConfig (noOptions\<lparr>opt_trailLength := Some 0\<rparr>),
      UpdateConfig (noOptions\<lparr>opt_trailLength := Some 2\<rparr>),
      Destroy, TrackMouse \<lparr>clientX = 1, clientY = 2\<rparr>, Init noOptions]"
  have c: "Cursory\<lparr>config := defaultOptions\<rparr> = Cursory"
    by (simp add: Cursory_def)
  have h: "admissible ?as Cursory"
    by code_simp
  have i: "case run ?as Cursory of Inl err \<Rightarrow> False | Inr w \<Rightarrow> isInitialized w"
    by code_simp
  from initialized_count_invariant [of ?as defaultOptions] h c obtain w where
    "run ?as Cursory = Inr w" "isInitialized w \<longrightarrow> int (length (trails w)) = maxTrails w"
    by auto
  with h i show ?thesis
    by simp
qed

text \<open>
  A \<open>trailLength\<close> of 0 passed to \<open>updateConfig\<close> is stored in the configuration and
  changes neither the markers nor \<open>maxTrails\<close>: the test
  \<^verbatim>\<open>newConfig.trailLength && ...\<close> reads the number 0 as a missing key.
\<close>

lemma updateConfig_zero_keeps_trails:
  "isInitialized w \<Longrightarrow> opt_trailLength newConfig = Some 0 \<Longrightarrow>
   \<exists>w'. updateConfig newConfig w = Inr w' \<and> trails w' = trails w \<and>
        maxTrails w' = maxTrails w \<and> trailLength (config w') = 0"
  by (simp add: updateConfig_initialized spread_def override_def)

text \<open>
  Claim C1. \<open>updateConfig\<close> with \<open>trailLength\<close> k is to leave exactly k markers, k = 0
  included. For k > 0 on a consistent, counted controller it does (lemma
  \<open>updateConfig_trailLength\<close>). For k = 0 it does not: on a controller initialized with
  three markers, \<open>updateConfig\<close> with \<open>trailLength\<close> 0 returns normally with the three
  markers still in \<open>trails\<close> and in the body, \<open>maxTrails\<close> still 3 and the stored
  \<open>trailLength\<close> 0.
\<close>

theorem updateConfig_zero_keeps_markers:
  "(case updateConfig (noOptions\<lparr>opt_trailLength := Some 0\<rparr>)
           (init (noOptions\<lparr>opt_trailLength := Some 3\<rparr>) Cursory) of
      Inl err \<Rightarrow> False
    | Inr w \<Rightarrow> isInitialized w \<and> length (trails w) = 3 \<and> maxTrails w = 3 \<and>
               trailLength (config w) = 0 \<and> body w = [0, 1, 2])"
  by code_simp

subsection \<open>destroy\<close>

text \<open>
  Claim C7. Whenever \<open>destroy\<close> returns, a second call right after it returns normally
  too and gives back the same world: controller and host are exactly as the first call
  left them.
\<close>

theorem destroy_idempotent:
  "destroy w = Inr w' \<Longrightarrow> destroy w' = Inr w'"
  by (drule destroy_uninitializes) (simp add: destroy_def)

text \<open>An instance: \<open>destroy\<close> after \<open>init\<close> with two markers.\<close>

theorem destroy_idempotent_witness:
  "(case destroy (init (noOptions\<lparr>opt_trailLength := Some 2\<rparr>) Cursory) of
      Inl err \<Rightarrow> False
    | Inr w' \<Rightarrow> destroy w' = Inr w')"
proof (cases "destroy (init (noOptions\<lparr>opt_trailLength := Some 2\<rparr>) Cursory)")
  case (Inl err)
  moreover have "well_formed (init (noOptions\<lparr>opt_trailLength := Some 2\<rparr>) Cursory)"
    using well_formed_init [OF invariant_Cursory(1), of _ defaultOptions]
    by (simp add: Cursory_def)
  ultimately show ?thesis
    using destroy_returns by fastforce
next
  case (Inr w')
  then show ?thesis
    using destroy_idempotent [OF Inr] by simp
qed

text \<open>
  The function object \<open>destroy\<close> hands to \<^verbatim>\<open>removeEventListener\<close> is made by a fresh
  \<^verbatim>\<open>bind\<close>; it is not the object \<open>init\<close> registered, so on every consistent world the
  listeners are the same after \<open>destroy\<close> as before.
\<close>

lemma destroy_keeps_listeners:
  assumes "well_formed w" and "destroy w = Inr w'"
  shows "listeners w' = listeners w"
proof (cases "isInitialized w")
  case False
  with assms show ?thesis by (simp add: destroy_def)
next
  case True
  from assms(2) obtain w1 where r: "removeEach (trails w) w = Inr w1"
    and w': "listeners w' = removeAll (nextFunction w1) (listeners w1)"
    unfolding destroy_initialized [OF True] by (auto split: sum.splits)
  from removeEach_result [OF r] have f: "w1 = w\<lparr>body := body w1\<rparr>"
    by blast
  have "listeners w1 = listeners w" "nextFunction w1 = nextFunction w"
    by (subst f, simp)+
  moreover have "nextFunction w \<notin> set (listeners w)"
    using assms(1) by (auto simp: well_formed_def list_all_iff)
  ultimately show ?thesis
    using w' by simp
qed

text \<open>
  Claim C2. After \<open>destroy\<close> the pointer-move listener is to be detached, so that later
  pointer moves no longer reach \<open>mouseX\<close> and \<open>mouseY\<close>. On a controller initialized
  with two markers \<open>destroy\<close> returns with the markers gone, no frame request pending
  and the flag cleared, but with the listener of \<open>init\<close> still registered: a pointer move
  to (5, 7) after it sets the stored pointer, which was (0, 0), to (5, 7).
\<close>

theorem destroy_leaves_listener:
  "(case destroy (init (noOptions\<lparr>opt_trailLength := Some 2\<rparr>) Cursory) of
      Inl err \<Rightarrow> False
    | Inr w \<Rightarrow>
        \<not> isInitialized w \<and> trails w = [] \<and> body w = [] \<and> frameRequests w = [] \<and>
        listeners w = listeners (init (noOptions\<lparr>opt_trailLength := Some 2\<rparr>) Cursory) \<and>
        listeners w = [0] \<and>
        mouseX w = 0 \<and> mouseY w = 0 \<and>
        mouseX (mousemove \<lparr>clientX = 5, clientY = 7\<rparr> w) = 5 \<and>
        mouseY (mousemove \<lparr>clientX = 5, clientY = 7\<rparr> w) = 7)"
  by code_simp

subsection \<open>Distance to a stationary pointer\<close>









subsection \<open>trailSpeed\<close>

text \<open>
  Every operation commutes with blanking the stored \<open>trailSpeed\<close>: no method reads it.
\<close>

lemma forget_update_config:
  "forget_trailSpeed (w\<lparr>config := c\<rparr>) = (forget_trailSpeed w)\<lparr>config := c\<lparr>trailSpeed := 0\<rparr>\<rparr>"
  by (simp add: forget_trailSpeed_def)

lemma forget_fields [simp]:
  "trails (forget_trailSpeed w) = trails w"
  "elements (forget_trailSpeed w) = elements w"
  "maxTrails (forget_trailSpeed w) = maxTrails w"
  "isInitialized (forget_trailSpeed w) = isInitialized w"
  "mouseX (forget_trailSpeed w) = mouseX w"
  "mouseY (forget_trailSpeed w) = mouseY w"
  "body (forget_trailSpeed w) = body w"
  "listeners (forget_trailSpeed w) = listeners w"
  "frameRequests (forget_trailSpeed w) = frameRequests w"
  "animationFrame (forget_trailSpeed w) = animationFrame w"
  "config (forget_trailSpeed w) = (config w)\<lparr>trailSpeed := 0\<rparr>"
  by (simp_all add: forget_trailSpeed_def)

lemma forget_update:
  "forget_trailSpeed (w\<lparr>trails := a1\<rparr>) = (forget_trailSpeed w)\<lparr>trails := a1\<rparr>"
  "forget_trailSpeed (w\<lparr>maxTrails := a2\<rparr>) = (forget_trailSpeed w)\<lparr>maxTrails := a2\<rparr>"
  "forget_trailSpeed (w\<lparr>animationFrame := a3\<rparr>) = (forget_trailSpeed w)\<lparr>animationFrame := a3\<rparr>"
  "forget_trailSpeed (w\<lparr>isInitialized := a4\<rparr>) = (forget_trailSpeed w)\<lparr>isInitialized := a4\<rparr>"
  "forget_trailSpeed (w\<lparr>mouseX := a5\<rparr>) = (forget_trailSpeed w)\<lparr>mouseX := a5\<rparr>"
  "forget_trailSpeed (w\<lparr>mouseY := a6\<rparr>) = (forget_trailSpeed w)\<lparr>mouseY := a6\<rparr>"
  "forget_trailSpeed (w\<lparr>body := a7\<rparr>) = (forget_trailSpeed w)\<lparr>body := a7\<rparr>"
  "forget_trailSpeed (w\<lparr>elements := a8\<rparr>) = (forget_trailSpeed w)\<lparr>elements := a8\<rparr>"
  "forget_trailSpeed (w\<lparr>nextElement := a9\<rparr>) = (forget_trailSpeed w)\<lparr>nextElement := a9\<rparr>"
  "forget_trailSpeed (w\<lparr>listeners := b1\<rparr>) = (forget_trailSpeed w)\<lparr>listeners := b1\<rparr>"
  "forget_trailSpeed (w\<lparr>nextFunction := b2\<rparr>) = (forget_trailSpeed w)\<lparr>nextFunction := b2\<rparr>"
  "forget_trailSpeed (w\<lparr>frameRequests := b3\<rparr>) = (forget_trailSpeed w)\<lparr>frameRequests := b3\<rparr>"
  "forget_trailSpeed (w\<lparr>nextRequest := b4\<rparr>) = (forget_trailSpeed w)\<lparr>nextRequest := b4\<rparr>"
  by (simp_all add: forget_trailSpeed_def)

lemma forget_counters [simp]:
  "nextElement (forget_trailSpeed w) = nextElement w"
  "nextFunction (forget_trailSpeed w) = nextFunction w"
  "nextRequest (forget_trailSpeed w) = nextRequest w"
  by (simp_all add: forget_trailSpeed_def)

lemma forget_idem [simp]: "forget_trailSpeed (forget_trailSpeed w) = forget_trailSpeed w"
  by (simp add: forget_trailSpeed_def)

lemma forget_createTrail: "forget_trailSpeed (createTrail w) = createTrail (forget_trailSpeed w)"
  by (simp add: createTrail_def forget_trailSpeed_def Let_def)

lemma forget_createTrails:
  "forget_trailSpeed (createTrails n w) = createTrails n (forget_trailSpeed w)"
  by (induction n arbitrary: w) (simp_all add: forget_createTrail)

lemma forget_animateTrail:
  "forget_trailSpeed (animateTrail i w) = animateTrail i (forget_trailSpeed w)"
  by (simp add: animateTrail_def forget_trailSpeed_def Let_def)

lemma forget_animateLoop:
  "forget_trailSpeed (animateLoop i w) = animateLoop i (forget_trailSpeed w)"
proof (induction i w rule: animateLoop.induct)
  case (1 i w)
  show ?case
  proof (cases "i < length (trails w)")
    case True
    then show ?thesis
      using "1.IH"
      by (subst animateLoop.simps, subst (2) animateLoop.simps) (simp add: forget_animateTrail)
  next
    case False
    then show ?thesis
      by (subst animateLoop.simps, subst (2) animateLoop.simps) simp
  qed
qed

lemma forget_animate: "forget_trailSpeed (animate w) = animate (forget_trailSpeed w)"
proof -
  have shape: "animate w = (animateLoop 0 w)\<lparr>nextFunction := Suc (nextFunction w),
      frameRequests := frameRequests w @ [nextRequest w], nextRequest := Suc (nextRequest w),
      animationFrame := Some (nextRequest w)\<rparr>" for w
    by (simp add: animate_def bind_this_def requestAnimationFrame_def Let_def)
  show ?thesis
    unfolding shape by (simp add: forget_update forget_animateLoop)
qed

lemma forget_trackMouse:
  "forget_trailSpeed (trackMouse e w) = trackMouse e (forget_trailSpeed w)"
  by (simp add: trackMouse_def forget_trailSpeed_def)

lemma forget_restyle: "forget_trailSpeed (restyle t w) = restyle t (forget_trailSpeed w)"
  by (simp add: restyle_def forget_trailSpeed_def)

lemma forget_fold:
  assumes "\<And>x w. forget_trailSpeed (f x w) = f x (forget_trailSpeed w)"
  shows "forget_trailSpeed (fold f xs w) = fold f xs (forget_trailSpeed w)"
  by (induction xs arbitrary: w) (simp_all add: assms)

lemma forget_removeChild:
  "map_sum id forget_trailSpeed (removeChild e w) = removeChild e (forget_trailSpeed w)"
  by (simp add: removeChild_def forget_trailSpeed_def)

lemma forget_removeTrails:
  "map_sum id forget_trailSpeed (removeTrails n w) = removeTrails n (forget_trailSpeed w)"
proof (induction n arbitrary: w)
  case 0
  show ?case by simp
next
  case (Suc n)
  let ?e = "trail_element (last (trails w))"
  let ?w1 = "w\<lparr>trails := butlast (trails w)\<rparr>"
  have r: "removeChild ?e ((forget_trailSpeed w)\<lparr>trails := butlast (trails w)\<rparr>) =
      map_sum id forget_trailSpeed (removeChild ?e ?w1)"
    by (simp add: forget_removeChild forget_update)
  show ?case
  proof (cases "removeChild ?e ?w1")
    case (Inl err)
    with r show ?thesis by simp
  next
    case (Inr w2)
    with r Suc.IH [of w2] show ?thesis by simp
  qed
qed

lemma forget_removeEach:
  "map_sum id forget_trailSpeed (removeEach ts w) = removeEach ts (forget_trailSpeed w)"
proof (induction ts arbitrary: w)
  case Nil
  show ?case by simp
next
  case (Cons t ts)
  have r: "removeChild (trail_element t) (forget_trailSpeed w) =
      map_sum id forget_trailSpeed (removeChild (trail_element t) w)"
    by (simp add: forget_removeChild)
  show ?case
  proof (cases "removeChild (trail_element t) w")
    case (Inl err)
    with r show ?thesis by simp
  next
    case (Inr w2)
    with r Cons.IH [of w2] show ?thesis by simp
  qed
qed

lemma forget_destroy:
  "map_sum id forget_trailSpeed (destroy w) = destroy (forget_trailSpeed w)"
proof (cases "isInitialized w")
  case False
  then show ?thesis by (simp add: destroy_def)
next
  case True
  have r: "removeEach (trails w) (forget_trailSpeed w) =
      map_sum id forget_trailSpeed (removeEach (trails w) w)"
    by (simp add: forget_removeEach)
  show ?thesis
  proof (cases "removeEach (trails w) w")
    case (Inl err)
    with True r show ?thesis by (simp add: destroy_initialized)
  next
    case (Inr w1)
    with True r show ?thesis
      by (simp add: destroy_initialized forget_update split: option.splits)
  qed
qed

lemma forget_mousemove: "forget_trailSpeed (mousemove e w) = mousemove e (forget_trailSpeed w)"
  by (simp add: mousemove_def forget_fold forget_trackMouse)

lemma forget_frame: "forget_trailSpeed (frame w) = frame (forget_trailSpeed w)"
  by (simp add: frame_def forget_fold forget_animate forget_update)

lemma forget_addEventListener:
  "forget_trailSpeed (addEventListener f w) = addEventListener f (forget_trailSpeed w)"
  by (simp add: addEventListener_def forget_update)

lemma forget_init:
  "forget_trailSpeed (init opts w) = init (opts\<lparr>opt_trailSpeed := Some 0\<rparr>) (forget_trailSpeed w)"
proof -
  have shape: "init opts w =
      (animate (addEventListener (nextFunction w)
         ((createTrails (nat (trailLength (spread defaultOptions opts)))
            (w\<lparr>config := spread defaultOptions opts,
               maxTrails := trailLength (spread defaultOptions opts)\<rparr>))
          \<lparr>nextFunction := Suc (nextFunction w)\<rparr>)))\<lparr>isInitialized := True\<rparr>"
    for opts w
    by (simp add: init_def bind_this_def Let_def)
  have c: "(spread defaultOptions opts)\<lparr>trailSpeed := 0\<rparr> =
      spread defaultOptions (opts\<lparr>opt_trailSpeed := Some 0\<rparr>)"
    "trailLength (spread defaultOptions (opts\<lparr>opt_trailSpeed := Some 0\<rparr>)) =
      trailLength (spread defaultOptions opts)"
    by (simp_all add: spread_def override_def)
  show ?thesis
    unfolding shape
    by (simp add: forget_update forget_update_config forget_animate forget_addEventListener
        forget_createTrails c)
qed

lemma forget_updateConfig:
  "map_sum id forget_trailSpeed (updateConfig newConfig w) =
     updateConfig (newConfig\<lparr>opt_trailSpeed := Some 0\<rparr>) (forget_trailSpeed w)"
proof (cases "isInitialized w")
  case False
  then show ?thesis by (simp add: updateConfig_def)
next
  case True
  let ?z = "newConfig\<lparr>opt_trailSpeed := Some 0\<rparr>"
  let ?w2 = "fold restyle (trails w) (w\<lparr>config := spread (config w) newConfig\<rparr>)"
  let ?v2 = "fold restyle (trails w)
      ((forget_trailSpeed w)\<lparr>config := spread (config (forget_trailSpeed w)) ?z\<rparr>)"
  have "(spread (config w) newConfig)\<lparr>trailSpeed := 0\<rparr> =
      spread (config (forget_trailSpeed w)) ?z"
    by (simp add: spread_def override_def)
  then have w2: "forget_trailSpeed ?w2 = ?v2"
    by (simp add: forget_fold forget_restyle forget_update_config)
  note m = forget_update(2)
  have rt: "removeTrails n ?v2 = map_sum id forget_trailSpeed (removeTrails n ?w2)" for n
    by (simp add: forget_removeTrails w2)
  have ct: "createTrails n ?v2 = forget_trailSpeed (createTrails n ?w2)" for n
    by (simp add: forget_createTrails w2)
  have tl: "trailLength (config (forget_trailSpeed v)) = trailLength (config v)" for v
    by simp
  show ?thesis
  proof (cases "opt_trailLength newConfig")
    case None
    with True w2 show ?thesis
      by (simp add: updateConfig_initialized)
  next
    case (Some k)
    show ?thesis
    proof (cases "removeTrails (nat (maxTrails w - k)) ?w2")
      case (Inl err)
      with True Some w2 rt [of "nat (maxTrails w - k)"] ct [of "nat (k - maxTrails w)"]
      show ?thesis
        by (simp add: updateConfig_initialized m Let_def cong: if_cong)
    next
      case (Inr w3)
      with True Some w2 rt [of "nat (maxTrails w - k)"] ct [of "nat (k - maxTrails w)"]
      show ?thesis
        by (simp add: updateConfig_initialized m Let_def cong: if_cong)
    qed
  qed
qed


lemma forget_step:
  "map_sum id forget_trailSpeed (step a w) = step (set_trailSpeed (Some 0) a) (forget_trailSpeed w)"
  by (cases a)
     (simp_all add: forget_init forget_trackMouse forget_animate forget_updateConfig forget_destroy
        forget_mousemove forget_frame)

lemma forget_run:
  "map_sum id forget_trailSpeed (run as w) =
     run (map (set_trailSpeed (Some 0)) as) (forget_trailSpeed w)"
proof (induction as arbitrary: w)
  case Nil
  show ?case by simp
next
  case (Cons a as)
  have s: "step (set_trailSpeed (Some 0) a) (forget_trailSpeed w) =
      map_sum id forget_trailSpeed (step a w)"
    by (simp add: forget_step)
  show ?case
  proof (cases "step a w")
    case (Inl err)
    with s show ?thesis by simp
  next
    case (Inr w1)
    with s Cons.IH [of w1] show ?thesis by simp
  qed
qed

lemma set_trailSpeed_twice: "set_trailSpeed v (set_trailSpeed u a) = set_trailSpeed v a"
  by (cases a) simp_all

text \<open>
  Claim C6. \<open>trailSpeed\<close> is accepted and merged into the configuration by \<open>init\<close> (the
  argument's value, 1/2 if the key is missing), and nothing consumes it: two runs from
  the same world whose actions differ only in the \<open>trailSpeed\<close> key of their arguments
  end in the same outcome, the same exception or worlds that are equal but for the
  stored \<open>trailSpeed\<close>; in particular the markers and their elements, hence all marker
  positions, are identical.
\<close>

theorem trailSpeed_never_consumed:
  assumes "map (set_trailSpeed None) as = map (set_trailSpeed None) bs"
  shows "map_sum id forget_trailSpeed (run as w) = map_sum id forget_trailSpeed (run bs w) \<and>
         map_sum id trails (run as w) = map_sum id trails (run bs w) \<and>
         map_sum id elements (run as w) = map_sum id elements (run bs w) \<and>
         trailSpeed (config (init opts w)) =
           (case opt_trailSpeed opts of None \<Rightarrow> 1 / 2 | Some v \<Rightarrow> v)"
proof -
  have "map (set_trailSpeed (Some 0)) (map (set_trailSpeed None) as) =
      map (set_trailSpeed (Some 0)) (map (set_trailSpeed None) bs)"
    using assms by simp
  moreover have "set_trailSpeed (Some 0) \<circ> set_trailSpeed None = set_trailSpeed (Some 0)"
    by (simp add: fun_eq_iff set_trailSpeed_twice)
  ultimately have "map (set_trailSpeed (Some 0)) as = map (set_trailSpeed (Some 0)) bs"
    by simp
  then have same: "map_sum id forget_trailSpeed (run as w) = map_sum id forget_trailSpeed (run bs w)"
    by (simp add: forget_run)
  have "map_sum id f (run as w) = map_sum id f (run bs w)"
    if "\<And>v. f (forget_trailSpeed v) = f v" for f :: "world \<Rightarrow> 'b"
  proof -
    have "map_sum id f r = map_sum id f (map_sum id forget_trailSpeed r)" for r
      by (cases r) (simp_all add: that)
    with same show ?thesis
      by metis
  qed
  from this [of trails] this [of elements] same show ?thesis
    by (simp add: spread_def override_def defaultOptions_def split: option.splits)
qed

text \<open>
  An instance: \<open>init\<close> with \<open>trailSpeed\<close> 9/10 and \<open>init\<close> without the key, each followed by
  a pointer move and a frame.
\<close>

theorem trailSpeed_never_consumed_witness:
  "map (set_trailSpeed None)
     [Init (noOptions\<lparr>opt_trailLength := Some 2, opt_trailSpeed := Some (9 / 10)\<rparr>),
      MouseMove \<lparr>clientX = 8, clientY = 6\<rparr>, Frame] =
   map (set_trailSpeed None)
     [Init (noOptions\<lparr>opt_trailLength := Some 2\<rparr>),
      MouseMove \<lparr>clientX = 8, clientY = 6\<rparr>, Frame] \<and>
   map_sum id trails (run
     [Init (noOptions\<lparr>opt_trailLength := Some 2, opt_trailSpeed := Some (9 / 10)\<rparr>),
      MouseMove \<lparr>clientX = 8, clientY = 6\<rparr>, Frame] Cursory) =
   map_sum id trails (run
     [Init (noOptions\<lparr>opt_trailLength := Some 2\<rparr>),
      MouseMove \<lparr>clientX = 8, clientY = 6\<rparr>, Frame] Cursory) \<and>
   trailSpeed (config (init (noOptions\<lparr>opt_trailLength := Some 2, opt_trailSpeed := Some (9 / 10)\<rparr>) Cursory)) = 9 / 10 \<and>
   trailSpeed (config (init (noOptions\<lparr>opt_trailLength := Some 2\<rparr>) Cursory)) = 1 / 2"
proof -
  let ?as = "[Init (noOptions\<lparr>opt_trailLength := Some 2, opt_trailSpeed := Some (9 / 10)\<rparr>),
      MouseMove \<lparr>clientX = 8, clientY = 6\<rparr>, Frame]"
  let ?bs = "[Init (noOptions\<lparr>opt_trailLength := Some 2\<rparr>),
      MouseMove \<lparr>clientX = 8, clientY = 6\<rparr>, Frame]"
  have h: "map (set_trailSpeed None) ?as = map (set_trailSpeed None) ?bs"
    by (simp add: noOptions_def)
  have "map_sum id trails (run ?as Cursory) = map_sum id trails (run ?bs Cursory)"
    using trailSpeed_never_consumed [OF h, of Cursory] by blast
  moreover have "trailSpeed (config (init (noOptions\<lparr>opt_trailLength := Some 2, opt_trailSpeed := Some (9 / 10)\<rparr>) Cursory)) = 9 / 10"
    "trailSpeed (config (init (noOptions\<lparr>opt_trailLength := Some 2\<rparr>) Cursory)) = 1 / 2"
    by (simp_all add: spread_def override_def defaultOptions_def noOptions_def)
  ultimately show ?thesis
    using h by blast
qed

end
